theory Spec2Isabelle
  imports Complex_Main
begin

section \<open>DealRelay: the price tracker of \<^verbatim>\<open>app.py\<close>\<close>

text \<open>
  The program is one Python module: an extractor (\<^verbatim>\<open>get_product_details\<close>), a
  notifier (\<^verbatim>\<open>send_notification_email\<close>), the hourly sweep (\<^verbatim>\<open>check_prices\<close>)
  and the HTTP endpoint (\<^verbatim>\<open>track_product\<close>) over two tables.

  Conventions of the embedding.
  \<^item> A price is a Python float. The code only compares prices (\<^verbatim>\<open><\<close>, \<^verbatim>\<open>==\<close>)
    and stores them, so a price is a \<open>real\<close>; rounding to binary64 is not modelled.
    \<^verbatim>\<open>float()\<close> never yields NaN on the text the extractor builds, since that text always
    holds a dot; an overflow to \<^verbatim>\<open>inf\<close> behaves in every comparison made here as a
    large real does.
  \<^item> Both calls of \<^verbatim>\<open>db.session.commit()\<close> may raise; queries, \<^verbatim>\<open>add\<close> and \<^verbatim>\<open>flush\<close>
    are taken to succeed. The store of the model is the committed content.
  \<^item> The two fields of a track request are strings, as the interface documents them.
  \<^item> Everything outside the module is a field of the record \<open>env\<close>: the web
    (\<^verbatim>\<open>requests.get\<close> and \<^verbatim>\<open>BeautifulSoup.find\<close>), the builtin \<^verbatim>\<open>float\<close>, the
    process environment, the SMTP relay, and whether a \<^verbatim>\<open>db.session.commit()\<close> goes
    through.
  \<^item> An exception is a value of \<open>exn\<close>; a function that may raise returns \<open>exn + 'a\<close>
    with \<open>Inl\<close> the exception, and every \<^verbatim>\<open>try\<close>/\<^verbatim>\<open>except\<close> is a \<open>case\<close> on it.
  \<^item> Every \<^verbatim>\<open>print\<close>, every mail handed to the relay and every commit or rollback is an
    \<open>event\<close>; a function returns the events it caused, in order.
\<close>

subsection \<open>Data model (lines 28-40)\<close>

record product =
  p_id :: nat
  url :: string
  title :: string
  price :: real

record subscription =
  s_id :: nat
  user_email :: string
  product_id :: nat

text \<open>The committed content of the database: both tables in row order.\<close>

record store =
  products :: "product list"
  subscriptions :: "subscription list"

subsection \<open>Exceptions, pages, mails, events\<close>

datatype exn =
    AttributeError
  | ValueError
  | RequestException
  | SMTPException
  | OSError
  | SQLAlchemyError

text \<open>
  What \<^verbatim>\<open>soup.find(...)\<close> gives on a fetched page for the three selectors of the
  extractor: \<open>None\<close> when no element matches, otherwise the element's
  \<^verbatim>\<open>get_text(strip=True)\<close>.
\<close>

record page =
  productTitle :: "string option"
  a_price_whole :: "string option"
  a_price_fraction :: "string option"

text \<open>The mail of lines 59-76: the fields the template is filled with.\<close>

record message =
  subject_title :: string
  body_title :: string
  old_price :: real
  new_price :: real
  body_url :: string

datatype event =
    Print_credentials_not_set
  | Print_attempting string
  | Sendmail string string message
  | Print_email_sent string
  | Print_email_error exn
  | Print_checking_url string
  | Print_connection_error
  | Print_check_started
  | Print_no_products
  | Print_checking string
  | Print_price_drop string
  | Print_old_new real real
  | Db_commit_ok
  | Db_commit_raised
  | Db_rollback
  | Print_database_updated
  | Print_no_change
  | Print_check_completed
  | Print_new_product string
  | Print_database_error

text \<open>
  The world outside the module.
  \<^item> \<open>requests_get u\<close>: \<open>None\<close> when \<^verbatim>\<open>requests.get\<close> or \<^verbatim>\<open>raise_for_status\<close> raises a
    \<^verbatim>\<open>RequestException\<close>, otherwise the page.
  \<^item> \<open>float_of s\<close>: the builtin \<^verbatim>\<open>float(s)\<close>; \<open>None\<close> is its \<^verbatim>\<open>ValueError\<close>.
  \<^item> \<open>SENDER_EMAIL\<close>, \<open>SENDER_PASSWORD\<close>: \<^verbatim>\<open>os.environ.get\<close> of the two variables.
  \<^item> \<open>smtp sender password receiver m\<close>: the session of lines 81-83 (connect, login,
    sendmail); \<open>None\<close> when the mail is accepted, otherwise the exception raised.
  \<^item> \<open>commit_ok s\<close>: whether \<^verbatim>\<open>db.session.commit()\<close> succeeds when it would make \<open>s\<close> the
    committed content.
\<close>

record env =
  requests_get :: "string \<Rightarrow> page option"
  float_of :: "string \<Rightarrow> real option"
  SENDER_EMAIL :: "string option"
  SENDER_PASSWORD :: "string option"
  smtp :: "string \<Rightarrow> string \<Rightarrow> string \<Rightarrow> message \<Rightarrow> exn option"
  commit_ok :: "store \<Rightarrow> bool"

subsection \<open>The notifier: \<^verbatim>\<open>send_notification_email\<close> (lines 48-86)\<close>

text \<open>Python truth of \<^verbatim>\<open>os.environ.get(...)\<close>: \<^verbatim>\<open>None\<close> and the empty string are false.\<close>

definition truthy :: "string option \<Rightarrow> bool" where
  "truthy v = (case v of None \<Rightarrow> False | Some s \<Rightarrow> s \<noteq> [])"

definition build_message :: "product \<Rightarrow> real \<Rightarrow> message" where
  "build_message product np =
     \<lparr>subject_title = take 30 (title product), body_title = title product,
      old_price = price product, new_price = np, body_url = url product\<rparr>"

definition send_notification_email ::
  "env \<Rightarrow> string \<Rightarrow> product \<Rightarrow> real \<Rightarrow> event list \<times> (exn + unit)" where
  "send_notification_email e receiver_email product np =
     (if \<not> (truthy (SENDER_EMAIL e) \<and> truthy (SENDER_PASSWORD e))
      then ([Print_credentials_not_set], Inr ())
      else
        (let sender_email = the (SENDER_EMAIL e);
             password = the (SENDER_PASSWORD e);
             m = build_message product np
         in case smtp e sender_email password receiver_email m of
              None \<Rightarrow>
                ([Print_attempting receiver_email,
                  Sendmail sender_email receiver_email m,
                  Print_email_sent receiver_email], Inr ())
            | Some x \<Rightarrow>
                ([Print_attempting receiver_email, Print_email_error x], Inr ())))"

subsection \<open>The extractor: \<^verbatim>\<open>get_product_details\<close> (lines 89-112)\<close>

text \<open>\<^verbatim>\<open>soup.find(...).get_text(strip=True)\<close>: an \<^verbatim>\<open>AttributeError\<close> on \<^verbatim>\<open>None\<close>.\<close>

definition get_text :: "string option \<Rightarrow> exn + string" where
  "get_text el = (case el of None \<Rightarrow> Inl AttributeError | Some t \<Rightarrow> Inr t)"

text \<open>\<^verbatim>\<open>s.replace(c, '')\<close> for a one-character \<open>c\<close>.\<close>

definition replace_char :: "char \<Rightarrow> string \<Rightarrow> string" where
  "replace_char c s = filter (\<lambda>d. d \<noteq> c) s"

text \<open>The text handed to \<^verbatim>\<open>float\<close> on line 108.\<close>

definition price_text :: "string \<Rightarrow> string \<Rightarrow> string" where
  "price_text price_whole price_fraction =
     replace_char (CHR '','') (replace_char (CHR ''.'') price_whole) @ ''.'' @ price_fraction"

text \<open>The body of the second \<^verbatim>\<open>try\<close> (lines 106-108).\<close>

definition price_try :: "env \<Rightarrow> page \<Rightarrow> exn + real" where
  "price_try e pg =
     (case get_text (a_price_whole pg) of
        Inl x \<Rightarrow> Inl x
      | Inr price_whole_str \<Rightarrow>
          (case get_text (a_price_fraction pg) of
             Inl x \<Rightarrow> Inl x
           | Inr price_fraction_str \<Rightarrow>
               (case float_of e (price_text price_whole_str price_fraction_str) of
                  None \<Rightarrow> Inl ValueError
                | Some v \<Rightarrow> Inr v)))"

definition get_product_details ::
  "env \<Rightarrow> string \<Rightarrow> event list \<times> (exn + string \<times> real)" where
  "get_product_details e url_to_check =
     (case requests_get e url_to_check of
        None \<Rightarrow>
          ([Print_checking_url (take 50 url_to_check), Print_connection_error],
           Inr (''N/A'', 0))
      | Some pg \<Rightarrow>
          (case (case get_text (productTitle pg) of
                   Inr t \<Rightarrow> Inr t
                 | Inl x \<Rightarrow> if x = AttributeError then Inr ''N/A'' else Inl x) of
             Inl x \<Rightarrow> ([Print_checking_url (take 50 url_to_check)], Inl x)
           | Inr product_name \<Rightarrow>
               (case (case price_try e pg of
                        Inr v \<Rightarrow> Inr v
                      | Inl x \<Rightarrow>
                          if x = AttributeError \<or> x = ValueError then Inr 0 else Inl x) of
                  Inl x \<Rightarrow> ([Print_checking_url (take 50 url_to_check)], Inl x)
                | Inr full_price \<Rightarrow>
                    ([Print_checking_url (take 50 url_to_check)],
                     Inr (product_name, full_price)))))"

subsection \<open>The sweep: \<^verbatim>\<open>check_prices\<close> (lines 115-140)\<close>

text \<open>\<^verbatim>\<open>product.subscriptions\<close>: the rows of the relationship of line 33.\<close>

definition product_subscriptions :: "store \<Rightarrow> product \<Rightarrow> subscription list" where
  "product_subscriptions st product =
     filter (\<lambda>sub. product_id sub = p_id product) (subscriptions st)"

text \<open>The inner loop of lines 131-132.\<close>

fun notify_loop ::
  "env \<Rightarrow> subscription list \<Rightarrow> product \<Rightarrow> real \<Rightarrow> event list \<times> (exn + unit)" where
  "notify_loop e [] product np = ([], Inr ())"
| "notify_loop e (sub # subs) product np =
     (case send_notification_email e (user_email sub) product np of
        (ev, Inl x) \<Rightarrow> (ev, Inl x)
      | (ev, Inr _) \<Rightarrow>
          (case notify_loop e subs product np of (ev', r) \<Rightarrow> (ev @ ev', r)))"

text \<open>\<^verbatim>\<open>product.price = new_price\<close> once committed: the row of that primary key.\<close>

definition update_price :: "nat \<Rightarrow> real \<Rightarrow> store \<Rightarrow> store" where
  "update_price i np st =
     st\<lparr>products := map (\<lambda>q. if p_id q = i then q\<lparr>price := np\<rparr> else q) (products st)\<rparr>"

text \<open>
  The body of the outer loop (lines 124-138) for one product, from the committed
  content \<open>st\<close>. A commit that raises is not handled by the sweep: the exception leaves
  \<^verbatim>\<open>check_prices\<close> and the committed content stays as it was.
\<close>

definition check_product ::
  "env \<Rightarrow> product \<Rightarrow> store \<Rightarrow> event list \<times> store \<times> (exn + unit)" where
  "check_product e product st =
     (case get_product_details e (url product) of
        (ev, Inl x) \<Rightarrow> (Print_checking (take 30 (title product)) # ev, st, Inl x)
      | (ev, Inr (_, np)) \<Rightarrow>
          if 0 < np \<and> np < price product then
            (case notify_loop e (product_subscriptions st product) product np of
               (ev', Inl x) \<Rightarrow>
                 (Print_checking (take 30 (title product)) # ev
                    @ [Print_price_drop (take 30 (title product)),
                       Print_old_new (price product) np] @ ev',
                  st, Inl x)
             | (ev', Inr _) \<Rightarrow>
                 if commit_ok e (update_price (p_id product) np st) then
                   (Print_checking (take 30 (title product)) # ev
                      @ [Print_price_drop (take 30 (title product)),
                         Print_old_new (price product) np] @ ev'
                      @ [Db_commit_ok, Print_database_updated],
                    update_price (p_id product) np st, Inr ())
                 else
                   (Print_checking (take 30 (title product)) # ev
                      @ [Print_price_drop (take 30 (title product)),
                         Print_old_new (price product) np] @ ev'
                      @ [Db_commit_raised],
                    st, Inl SQLAlchemyError))
          else
            (Print_checking (take 30 (title product)) # ev @ [Print_no_change],
             st, Inr ()))"

text \<open>The outer loop of line 123 over the rows loaded on line 117.\<close>

fun check_loop ::
  "env \<Rightarrow> product list \<Rightarrow> store \<Rightarrow> event list \<times> store \<times> (exn + unit)" where
  "check_loop e [] st = ([], st, Inr ())"
| "check_loop e (product # rest) st =
     (case check_product e product st of
        (ev, st', Inl x) \<Rightarrow> (ev, st', Inl x)
      | (ev, st', Inr _) \<Rightarrow>
          (case check_loop e rest st' of (ev', st'', r) \<Rightarrow> (ev @ ev', st'', r)))"

definition check_prices :: "env \<Rightarrow> store \<Rightarrow> event list \<times> store \<times> (exn + unit)" where
  "check_prices e st =
     (if products st = [] then ([Print_check_started, Print_no_products], st, Inr ())
      else
        (case check_loop e (products st) st of
           (ev, st', Inl x) \<Rightarrow> (Print_check_started # ev, st', Inl x)
         | (ev, st', Inr _) \<Rightarrow>
             (Print_check_started # ev @ [Print_check_completed], st', Inr ())))"

subsection \<open>The endpoint: \<^verbatim>\<open>track_product\<close> (lines 161-198)\<close>

datatype reply =
    Missing_fields
  | Failed_to_retrieve
  | Already_tracking
  | Error_creating
  | Success string

text \<open>The primary key SQLite gives a new row: one more than the largest in the table.\<close>

definition fresh_id :: "nat list \<Rightarrow> nat" where
  "fresh_id ids = Suc (fold max ids 0)"

text \<open>
  Lines 170-181: the product of that URL, looked up or created. \<open>Inl\<close> is the handler
  left early (an exception, or the 400 of line 177); \<open>Inr\<close> is the product with the
  content of the session, where a created product is added and flushed but not yet
  committed.
\<close>

definition find_or_create ::
  "env \<Rightarrow> store \<Rightarrow> string \<Rightarrow> event list \<times> ((exn + nat \<times> reply) + store \<times> product)" where
  "find_or_create e st product_url =
     (case find (\<lambda>p. url p = product_url) (products st) of
        Some product \<Rightarrow> ([], Inr (st, product))
      | None \<Rightarrow>
          (case get_product_details e product_url of
             (ev, Inl x) \<Rightarrow> (Print_new_product product_url # ev, Inl (Inl x))
           | (ev, Inr (t, pr)) \<Rightarrow>
               if t = ''N/A'' \<or> pr = 0 then
                 (Print_new_product product_url # ev, Inl (Inr (400, Failed_to_retrieve)))
               else
                 (let product = \<lparr>p_id = fresh_id (map p_id (products st)),
                                 url = product_url, title = t, price = pr\<rparr>
                  in (Print_new_product product_url # ev,
                      Inr (st\<lparr>products := products st @ [product]\<rparr>, product)))))"

text \<open>
  The handler. \<open>data\<close> is \<^verbatim>\<open>request.get_json()\<close>: \<open>None\<close> for no JSON body, otherwise the
  object as its key-value pairs. The result is the events, the committed content after
  the request, and the response (status and message) or an unhandled exception.
\<close>

definition track_product ::
  "env \<Rightarrow> store \<Rightarrow> (string \<times> string) list option
     \<Rightarrow> event list \<times> store \<times> (exn + nat \<times> reply)" where
  "track_product e st data =
     (case data of
        None \<Rightarrow> ([], st, Inr (400, Missing_fields))
      | Some d \<Rightarrow>
          (case (d, map_of d ''product_url'', map_of d ''user_email'') of
             (_ # _, Some product_url, Some email) \<Rightarrow>
               (case find_or_create e st product_url of
                  (ev, Inl r) \<Rightarrow> (ev, st, r)
                | (ev, Inr (pending, product)) \<Rightarrow>
                    (case find (\<lambda>s. user_email s = email \<and> product_id s = p_id product)
                            (subscriptions pending) of
                       Some subscription \<Rightarrow> (ev, st, Inr (200, Already_tracking))
                     | None \<Rightarrow>
                         (let new_subscription =
                                \<lparr>s_id = fresh_id (map s_id (subscriptions pending)),
                                 user_email = email, product_id = p_id product\<rparr>;
                              pending' = pending\<lparr>subscriptions :=
                                           subscriptions pending @ [new_subscription]\<rparr>
                          in if commit_ok e pending' then
                               (ev @ [Db_commit_ok], pending',
                                Inr (201, Success (take 30 (title product))))
                             else
                               (ev @ [Db_commit_raised, Db_rollback, Print_database_error],
                                st, Inr (500, Error_creating)))))
           | _ \<Rightarrow> ([], st, Inr (400, Missing_fields))))"

subsection \<open>A reading of \<^verbatim>\<open>float\<close> for the examples\<close>

text \<open>
  \<^verbatim>\<open>float(s)\<close> on a signed decimal literal (an optional sign, digits, at most one dot,
  digits, at least one digit), read as the exact decimal value. Exponents, underscores,
  surrounding blanks and the words \<^verbatim>\<open>inf\<close> and \<^verbatim>\<open>nan\<close> are left out: the general theorems
  hold for every \<open>float_of\<close>, and this one only evaluates the examples.
\<close>

definition digit_of :: "char \<Rightarrow> nat option" where
  "digit_of c =
     map_of [(CHR ''0'', 0), (CHR ''1'', 1), (CHR ''2'', 2), (CHR ''3'', 3), (CHR ''4'', 4),
             (CHR ''5'', 5), (CHR ''6'', 6), (CHR ''7'', 7), (CHR ''8'', 8), (CHR ''9'', 9)] c"

fun digits_value :: "nat \<Rightarrow> string \<Rightarrow> nat option" where
  "digits_value acc [] = Some acc"
| "digits_value acc (c # cs) =
     (case digit_of c of None \<Rightarrow> None | Some d \<Rightarrow> digits_value (10 * acc + d) cs)"

definition decimal_float :: "string \<Rightarrow> real option" where
  "decimal_float s =
     (let (sgn, body) =
            (case s of
               [] \<Rightarrow> (1, s)
             | c # r \<Rightarrow>
                 if c = CHR ''-'' then (- 1, r) else if c = CHR ''+'' then (1, r) else (1, s));
          ip = takeWhile (\<lambda>c. c \<noteq> CHR ''.'') body;
          fp = drop 1 (dropWhile (\<lambda>c. c \<noteq> CHR ''.'') body)
      in if ip = [] \<and> fp = [] then None
         else
           (case (digits_value 0 ip, digits_value 0 fp) of
              (Some a, Some b) \<Rightarrow> Some (sgn * (real a + real b / 10 ^ length fp))
            | _ \<Rightarrow> None))"

subsection \<open>Reading a run\<close>

text \<open>The mails handed to the relay in a run: receiver and message, in order.\<close>

fun mails :: "event list \<Rightarrow> (string \<times> message) list" where
  "mails [] = []"
| "mails (Sendmail sender receiver m # tr) = (receiver, m) # mails tr"
| "mails (_ # tr) = mails tr"

text \<open>Those about the product of URL \<open>u\<close> (line 71 puts the URL into the mail).\<close>

definition mails_about :: "string \<Rightarrow> event list \<Rightarrow> (string \<times> message) list" where
  "mails_about u tr = filter (\<lambda>(receiver, m). body_url m = u) (mails tr)"

text \<open>
  What the sweep may do to a row: identity, URL and title stay, and the price stays or
  becomes a positive one.
\<close>

definition keeps_row :: "(product \<Rightarrow> product) \<Rightarrow> bool" where
  "keeps_row f =
     (\<forall>q. p_id (f q) = p_id q \<and> url (f q) = url q \<and> title (f q) = title q
          \<and> (price (f q) = price q \<or> 0 < price (f q)))"

text \<open>
  What the sweep sees for a stored product (line 125), and the test of line 127.
\<close>

definition observed_price :: "env \<Rightarrow> product \<Rightarrow> real" where
  "observed_price e p =
     (case snd (get_product_details e (url p)) of Inr (t, np) \<Rightarrow> np | Inl x \<Rightarrow> 0)"

definition price_drop :: "env \<Rightarrow> product \<Rightarrow> bool" where
  "price_drop e p = (0 < observed_price e p \<and> observed_price e p < price p)"

text \<open>
  The constraints of the schema (lines 29, 30, 39, 40): primary key and unique URL of a
  product, one subscription per email and product, and every subscription refers to a
  stored product.
\<close>

definition well_formed :: "store \<Rightarrow> bool" where
  "well_formed st =
     (distinct (map p_id (products st)) \<and> distinct (map url (products st))
      \<and> distinct (map (\<lambda>s. (user_email s, product_id s)) (subscriptions st))
      \<and> (\<forall>s\<in>set (subscriptions st). product_id s \<in> set (map p_id (products st))))"


text \<open>The JSON body of a track request.\<close>

definition track_request :: "string \<Rightarrow> string \<Rightarrow> (string \<times> string) list option" where
  "track_request u em = Some [(''product_url'', u), (''user_email'', em)]"

subsection \<open>A small shop for the examples\<close>

definition example_web :: "string \<Rightarrow> page option" where
  "example_web u =
     (if u = ''https://shop.example/lamp'' then
        Some \<lparr>productTitle = Some ''Lamp'', a_price_whole = Some ''45'',
              a_price_fraction = Some ''00''\<rparr>
      else if u = ''https://shop.example/desk'' then
        Some \<lparr>productTitle = Some ''Desk'', a_price_whole = Some ''1.234'',
              a_price_fraction = Some ''56''\<rparr>
      else if u = ''https://shop.example/chair'' then
        Some \<lparr>productTitle = Some ''Chair'', a_price_whole = Some ''89'',
              a_price_fraction = Some ''90''\<rparr>
      else if u = ''https://shop.example/odd'' then
        Some \<lparr>productTitle = Some ''Odd'', a_price_whole = Some ''1.234'',
              a_price_fraction = Some ''5,6''\<rparr>
      else if u = ''https://shop.example/untitled'' then
        Some \<lparr>productTitle = None, a_price_whole = Some ''19'',
              a_price_fraction = Some ''99''\<rparr>
      else if u = ''https://shop.example/refund'' then
        Some \<lparr>productTitle = Some ''Refund'', a_price_whole = Some ''-5'',
              a_price_fraction = Some ''99''\<rparr>
      else if u = ''https://shop.example/soldout'' then
        Some \<lparr>productTitle = Some ''Sold out'', a_price_whole = None,
              a_price_fraction = None\<rparr>
      else None)"

text \<open>The relay refuses Bob; every commit goes through.\<close>

definition example_env :: env where
  "example_env =
     \<lparr>requests_get = example_web, float_of = decimal_float,
      SENDER_EMAIL = Some ''deals@example.org'', SENDER_PASSWORD = Some ''secret'',
      smtp = (\<lambda>_ _ receiver _.
                if receiver = ''bob@example.org'' then Some SMTPException else None),
      commit_ok = (\<lambda>_. True)\<rparr>"

text \<open>
  Three stored products: the lamp is now cheaper on the web (45.00 against 50.00), the
  desk is not (1234.56 against 1000.00), and the page of the third has lost its price.
  Alice and Bob follow the lamp.
\<close>

definition lamp :: product where
  "lamp = \<lparr>p_id = 1, url = ''https://shop.example/lamp'', title = ''Lamp'', price = 50\<rparr>"

definition desk :: product where
  "desk = \<lparr>p_id = 2, url = ''https://shop.example/desk'', title = ''Desk'', price = 1000\<rparr>"

definition sold :: product where
  "sold = \<lparr>p_id = 3, url = ''https://shop.example/soldout'', title = ''Sold out'',
           price = 20\<rparr>"

definition example_store :: store where
  "example_store =
     \<lparr>products = [lamp, desk, sold],
      subscriptions =
        [\<lparr>s_id = 1, user_email = ''alice@example.org'', product_id = 1\<rparr>,
         \<lparr>s_id = 2, user_email = ''bob@example.org'', product_id = 1\<rparr>,
         \<lparr>s_id = 3, user_email = ''alice@example.org'', product_id = 2\<rparr>,
         \<lparr>s_id = 4, user_email = ''bob@example.org'', product_id = 3\<rparr>]\<rparr>"


text \<open>The same world with a database that refuses every commit.\<close>

definition failing_db_env :: env where
  "failing_db_env = example_env\<lparr>commit_ok := (\<lambda>_. False)\<rparr>"

section \<open>Properties\<close>

subsection \<open>The extractor\<close>

lemma decimal_float_examples:
  "decimal_float ''45.00'' = Some 45"
  "decimal_float ''1234.56'' = Some 1234.56"
  "decimal_float ''19.99'' = Some 19.99"
  "decimal_float ''89.90'' = Some 89.9"
  "decimal_float ''-5.99'' = Some (- 5.99)"
  "decimal_float ''1234.5,6'' = None"
  by (simp_all add: decimal_float_def digit_of_def)

lemma get_product_details_page:
  assumes "requests_get e u = Some pg"
  shows "get_product_details e u =
           ([Print_checking_url (take 50 u)],
            Inr (case productTitle pg of None \<Rightarrow> ''N/A'' | Some t \<Rightarrow> t,
                 case a_price_whole pg of
                   None \<Rightarrow> 0
                 | Some w \<Rightarrow>
                     (case a_price_fraction pg of
                        None \<Rightarrow> 0
                      | Some f \<Rightarrow>
                          (case float_of e (price_text w f) of None \<Rightarrow> 0 | Some v \<Rightarrow> v))))"
  using assms
  by (simp add: get_product_details_def price_try_def get_text_def split: option.splits)

lemma get_product_details_failed:
  assumes "requests_get e u = None"
  shows "get_product_details e u =
           ([Print_checking_url (take 50 u), Print_connection_error], Inr (''N/A'', 0))"
  using assms by (simp add: get_product_details_def)

lemma get_product_details_total: "\<exists>ev t v. get_product_details e u = (ev, Inr (t, v))"
  by (cases "requests_get e u")
     (simp_all add: get_product_details_page get_product_details_failed)

lemma example_details:
  "get_product_details example_env ''https://shop.example/lamp'' =
     ([Print_checking_url ''https://shop.example/lamp''], Inr (''Lamp'', 45))"
  "get_product_details example_env ''https://shop.example/desk'' =
     ([Print_checking_url ''https://shop.example/desk''], Inr (''Desk'', 1234.56))"
  "get_product_details example_env ''https://shop.example/chair'' =
     ([Print_checking_url ''https://shop.example/chair''], Inr (''Chair'', 89.9))"
  "get_product_details example_env ''https://shop.example/odd'' =
     ([Print_checking_url ''https://shop.example/odd''], Inr (''Odd'', 0))"
  "get_product_details example_env ''https://shop.example/untitled'' =
     ([Print_checking_url ''https://shop.example/untitled''], Inr (''N/A'', 19.99))"
  "get_product_details example_env ''https://shop.example/refund'' =
     ([Print_checking_url ''https://shop.example/refund''], Inr (''Refund'', - 5.99))"
  "get_product_details example_env ''https://shop.example/soldout'' =
     ([Print_checking_url ''https://shop.example/soldout''], Inr (''Sold out'', 0))"
  "get_product_details example_env ''https://shop.example/gone'' =
     ([Print_checking_url ''https://shop.example/gone'', Print_connection_error],
      Inr (''N/A'', 0))"
  by (simp_all add: get_product_details_def price_try_def get_text_def example_env_def
        example_web_def price_text_def replace_char_def decimal_float_examples)

lemma example_pages:
  "requests_get example_env ''https://shop.example/desk'' =
     Some \<lparr>productTitle = Some ''Desk'', a_price_whole = Some ''1.234'',
           a_price_fraction = Some ''56''\<rparr>"
  "requests_get example_env ''https://shop.example/odd'' =
     Some \<lparr>productTitle = Some ''Odd'', a_price_whole = Some ''1.234'',
           a_price_fraction = Some ''5,6''\<rparr>"
  "requests_get example_env ''https://shop.example/untitled'' =
     Some \<lparr>productTitle = None, a_price_whole = Some ''19'',
           a_price_fraction = Some ''99''\<rparr>"
  "requests_get example_env ''https://shop.example/soldout'' =
     Some \<lparr>productTitle = Some ''Sold out'', a_price_whole = None,
           a_price_fraction = None\<rparr>"
  "requests_get example_env ''https://shop.example/gone'' = None"
  by (simp_all add: example_env_def example_web_def)

text \<open>
  C5, as the spec words it: on a page without the title element the extractor returns
  the title "unknown title". It does not: on the page of \<^verbatim>\<open>/untitled\<close>, which has no
  title element, the title returned is \<^verbatim>\<open>N/A\<close>.
\<close>

theorem title_sentinel_counterexample:
  "requests_get example_env ''https://shop.example/untitled'' =
     Some \<lparr>productTitle = None, a_price_whole = Some ''19'', a_price_fraction = Some ''99''\<rparr>
   \<and> snd (get_product_details example_env ''https://shop.example/untitled'')
       = Inr (''N/A'', 19.99)
   \<and> ''N/A'' \<noteq> ''unknown title''"
  by (simp add: example_details example_pages)

text \<open>
  C5, amended: for every page content in which the title element is absent, the
  extractor returns the sentinel title \<^verbatim>\<open>N/A\<close> (line 103), whatever the price.
\<close>

theorem title_sentinel:
  assumes "requests_get e u = Some pg" and "productTitle pg = None"
  shows "\<exists>v. snd (get_product_details e u) = Inr (''N/A'', v)"
  using assms by (simp add: get_product_details_page)

theorem title_sentinel_witness:
  "requests_get example_env ''https://shop.example/untitled'' =
     Some \<lparr>productTitle = None, a_price_whole = Some ''19'', a_price_fraction = Some ''99''\<rparr>
   \<and> productTitle \<lparr>productTitle = None, a_price_whole = Some ''19'',
                   a_price_fraction = Some ''99''\<rparr> = None
   \<and> (\<exists>v. snd (get_product_details example_env ''https://shop.example/untitled'')
            = Inr (''N/A'', v))"
proof -
  have a: "requests_get example_env ''https://shop.example/untitled'' =
     Some \<lparr>productTitle = None, a_price_whole = Some ''19'', a_price_fraction = Some ''99''\<rparr>"
    by (rule example_pages)
  have b: "productTitle \<lparr>productTitle = None, a_price_whole = Some ''19'',
                        a_price_fraction = Some ''99''\<rparr> = None"
    by simp
  from title_sentinel [OF a b] a b show ?thesis by blast
qed

text \<open>
  C6: when the fetch fails (\<open>requests_get\<close> is \<open>None\<close>: network failure or non-success
  status), or the page lacks the whole-part element or the fraction element, or \<^verbatim>\<open>float\<close>
  rejects the text built from them, \<^verbatim>\<open>get_product_details\<close> returns a result (\<open>Inr\<close>: no
  exception reaches the caller) whose price is the sentinel 0.0.
\<close>

theorem price_sentinel:
  assumes "requests_get e u = None
           \<or> (\<exists>pg. requests_get e u = Some pg
                 \<and> (a_price_whole pg = None \<or> a_price_fraction pg = None
                    \<or> (\<exists>w f. a_price_whole pg = Some w \<and> a_price_fraction pg = Some f
                           \<and> float_of e (price_text w f) = None)))"
  shows "\<exists>ev t. get_product_details e u = (ev, Inr (t, 0))"
  using assms
  by (auto simp: get_product_details_page get_product_details_failed split: option.splits)

theorem price_sentinel_witness:
  "requests_get example_env ''https://shop.example/gone'' = None
   \<and> (\<exists>ev t. get_product_details example_env ''https://shop.example/gone''
               = (ev, Inr (t, 0)))
   \<and> (\<exists>ev t. get_product_details example_env ''https://shop.example/soldout''
               = (ev, Inr (t, 0)))
   \<and> (\<exists>ev t. get_product_details example_env ''https://shop.example/odd''
               = (ev, Inr (t, 0)))"
proof -
  have a: "requests_get example_env ''https://shop.example/gone'' = None"
    by (rule example_pages)
  have b: "\<exists>pg. requests_get example_env ''https://shop.example/soldout'' = Some pg
             \<and> (a_price_whole pg = None \<or> a_price_fraction pg = None
                \<or> (\<exists>w f. a_price_whole pg = Some w \<and> a_price_fraction pg = Some f
                       \<and> float_of example_env (price_text w f) = None))"
    by (simp add: example_pages)
  have c: "\<exists>pg. requests_get example_env ''https://shop.example/odd'' = Some pg
             \<and> (a_price_whole pg = None \<or> a_price_fraction pg = None
                \<or> (\<exists>w f. a_price_whole pg = Some w \<and> a_price_fraction pg = Some f
                       \<and> float_of example_env (price_text w f) = None))"
    by (simp add: example_pages price_text_def replace_char_def)
       (simp add: example_env_def decimal_float_examples)
  from a price_sentinel [of example_env "''https://shop.example/gone''", OF disjI1, OF a]
    price_sentinel [of example_env "''https://shop.example/soldout''", OF disjI2, OF b]
    price_sentinel [of example_env "''https://shop.example/odd''", OF disjI2, OF c]
  show ?thesis by blast
qed

text \<open>
  C10: when both price elements are present, the text given to \<^verbatim>\<open>float\<close> is the whole
  part with every \<^verbatim>\<open>.\<close> and every \<^verbatim>\<open>,\<close> removed, then a dot, then the fraction part as
  it stands; the price returned is what \<^verbatim>\<open>float\<close> makes of that text, or 0.0 when it
  rejects it. So the whole part \<^verbatim>\<open>1.234\<close> with the fraction \<^verbatim>\<open>56\<close> gives 1234.56 (the
  witness), while a fraction \<^verbatim>\<open>5,6\<close> is not cleaned and gives 0.0.
\<close>

theorem price_whole_separators_stripped:
  assumes "requests_get e u = Some pg"
    and "a_price_whole pg = Some w" and "a_price_fraction pg = Some f"
  shows "\<exists>t. snd (get_product_details e u) =
           Inr (t, case float_of e
                          (filter (\<lambda>c. c \<noteq> CHR ''.'' \<and> c \<noteq> CHR '','') w @ ''.'' @ f) of
                     None \<Rightarrow> 0 | Some v \<Rightarrow> v)"
proof -
  have "price_text w f = filter (\<lambda>c. c \<noteq> CHR ''.'' \<and> c \<noteq> CHR '','') w @ ''.'' @ f"
    by (simp add: price_text_def replace_char_def conj_commute)
  with assms show ?thesis by (simp add: get_product_details_page)
qed

theorem price_whole_separators_stripped_witness:
  "snd (get_product_details example_env ''https://shop.example/desk'')
     = Inr (''Desk'', 1234.56)
   \<and> (\<exists>t. snd (get_product_details example_env ''https://shop.example/desk'') =
           Inr (t, case float_of example_env
                          (filter (\<lambda>c. c \<noteq> CHR ''.'' \<and> c \<noteq> CHR '','') ''1.234''
                             @ ''.'' @ ''56'') of
                     None \<Rightarrow> 0 | Some v \<Rightarrow> v))
   \<and> float_of example_env
        (filter (\<lambda>c. c \<noteq> CHR ''.'' \<and> c \<noteq> CHR '','') ''1.234'' @ ''.'' @ ''56'')
       = Some 1234.56
   \<and> (\<exists>t. snd (get_product_details example_env ''https://shop.example/odd'') =
           Inr (t, case float_of example_env
                          (filter (\<lambda>c. c \<noteq> CHR ''.'' \<and> c \<noteq> CHR '','') ''1.234''
                             @ ''.'' @ ''5,6'') of
                     None \<Rightarrow> 0 | Some v \<Rightarrow> v))
   \<and> float_of example_env
        (filter (\<lambda>c. c \<noteq> CHR ''.'' \<and> c \<noteq> CHR '','') ''1.234'' @ ''.'' @ ''5,6'')
       = None"
proof -
  have a: "snd (get_product_details example_env ''https://shop.example/desk'')
             = Inr (''Desk'', 1234.56)"
    by (simp add: example_details)
  have b: "float_of example_env
             (filter (\<lambda>c. c \<noteq> CHR ''.'' \<and> c \<noteq> CHR '','') ''1.234'' @ ''.'' @ ''56'')
           = Some 1234.56"
    by (simp add: example_env_def decimal_float_examples)
  have c: "float_of example_env
             (filter (\<lambda>c. c \<noteq> CHR ''.'' \<and> c \<noteq> CHR '','') ''1.234'' @ ''.'' @ ''5,6'')
           = None"
    by (simp add: example_env_def decimal_float_examples)
  note d = price_whole_separators_stripped [OF example_pages(1), of "''1.234''" "''56''"]
  note e = price_whole_separators_stripped [OF example_pages(2), of "''1.234''" "''5,6''"]
  from a b c d e show ?thesis by simp
qed

subsection \<open>The notifier and the sweep\<close>

lemma mails_append: "mails (a @ b) = mails a @ mails b"
  by (induction a rule: mails.induct) simp_all

lemma mails_about_append: "mails_about u (a @ b) = mails_about u a @ mails_about u b"
  by (simp add: mails_about_def mails_append)

lemma mails_get_product_details: "mails (fst (get_product_details e u)) = []"
  by (cases "requests_get e u") (simp_all add: get_product_details_page get_product_details_failed)

lemma send_notification_email_returns: "snd (send_notification_email e r p v) = Inr ()"
  by (simp add: send_notification_email_def Let_def split: option.splits)

lemma notify_loop_eq:
  "notify_loop e subs p v =
     (concat (map (\<lambda>sub. fst (send_notification_email e (user_email sub) p v)) subs), Inr ())"
proof (induction subs)
  case Nil
  show ?case by simp
next
  case (Cons sub subs)
  obtain ev where "send_notification_email e (user_email sub) p v = (ev, Inr ())"
    using send_notification_email_returns [of e "user_email sub" p v]
    by (cases "send_notification_email e (user_email sub) p v") auto
  with Cons show ?case by simp
qed

lemma mails_send_notification_email:
  "mails (fst (send_notification_email e r p v)) =
     (if truthy (SENDER_EMAIL e) \<and> truthy (SENDER_PASSWORD e)
         \<and> smtp e (the (SENDER_EMAIL e)) (the (SENDER_PASSWORD e)) r (build_message p v) = None
      then [(r, build_message p v)] else [])"
  by (simp add: send_notification_email_def Let_def split: option.splits)

lemma mails_notify_loop:
  "mails (fst (notify_loop e subs p v)) =
     map (\<lambda>sub. (user_email sub, build_message p v))
       (filter (\<lambda>sub. truthy (SENDER_EMAIL e) \<and> truthy (SENDER_PASSWORD e)
            \<and> smtp e (the (SENDER_EMAIL e)) (the (SENDER_PASSWORD e)) (user_email sub)
                 (build_message p v) = None) subs)"
  by (induction subs) (simp_all add: notify_loop_eq mails_append mails_send_notification_email)

lemma check_product_drop:
  assumes "get_product_details e (url p) = (ev, Inr (t, np))" and "0 < np" and "np < price p"
  shows "check_product e p st =
           (if commit_ok e (update_price (p_id p) np st) then
              (Print_checking (take 30 (title p)) # ev
                 @ [Print_price_drop (take 30 (title p)), Print_old_new (price p) np]
                 @ fst (notify_loop e (product_subscriptions st p) p np)
                 @ [Db_commit_ok, Print_database_updated],
               update_price (p_id p) np st, Inr ())
            else
              (Print_checking (take 30 (title p)) # ev
                 @ [Print_price_drop (take 30 (title p)), Print_old_new (price p) np]
                 @ fst (notify_loop e (product_subscriptions st p) p np)
                 @ [Db_commit_raised],
               st, Inl SQLAlchemyError))"
  using assms by (simp add: check_product_def notify_loop_eq)

lemma check_product_no_drop:
  assumes "get_product_details e (url p) = (ev, Inr (t, np))" and "\<not> (0 < np \<and> np < price p)"
  shows "check_product e p st =
           (Print_checking (take 30 (title p)) # ev @ [Print_no_change], st, Inr ())"
  using assms by (auto simp add: check_product_def)



lemma check_product_cases:
  obtains (drop) ev t np where "get_product_details e (url p) = (ev, Inr (t, np))"
      "0 < np" "np < price p" "price_drop e p" "observed_price e p = np"
  | (no_drop) ev t np where "get_product_details e (url p) = (ev, Inr (t, np))"
      "\<not> (0 < np \<and> np < price p)" "\<not> price_drop e p"
proof -
  obtain ev t np where g: "get_product_details e (url p) = (ev, Inr (t, np))"
    using get_product_details_total [of e "url p"] by blast
  then have o: "observed_price e p = np" by (simp add: observed_price_def)
  show thesis
  proof (cases "0 < np \<and> np < price p")
    case True
    with g o drop show ?thesis by (simp add: price_drop_def)
  next
    case False
    with g o no_drop show ?thesis by (simp add: price_drop_def)
  qed
qed

lemma check_product_quiet:
  assumes "\<not> price_drop e p"
  shows "mails (fst (check_product e p st)) = []"
    and "snd (check_product e p st) = (st, Inr ())"
proof -
  from assms obtain ev t np where g: "get_product_details e (url p) = (ev, Inr (t, np))"
    and n: "\<not> (0 < np \<and> np < price p)"
    by (cases rule: check_product_cases [of e p]) auto
  from g have "mails ev = []" using mails_get_product_details [of e "url p"] by simp
  with g n show "mails (fst (check_product e p st)) = []"
    by (simp add: check_product_no_drop mails_append)
  from g n show "snd (check_product e p st) = (st, Inr ())"
    by (simp add: check_product_no_drop)
qed

lemma check_product_store:
  "fst (snd (check_product e p st)) = st
   \<or> (price_drop e p
      \<and> fst (snd (check_product e p st)) = update_price (p_id p) (observed_price e p) st)"
proof (cases rule: check_product_cases [of e p])
  case drop
  then show ?thesis by (auto simp: check_product_drop)
next
  case no_drop
  then show ?thesis by (simp add: check_product_no_drop)
qed

lemma mails_check_product:
  assumes "(r, m) \<in> set (mails (fst (check_product e p st)))"
  shows "body_url m = url p \<and> price_drop e p"
proof (cases rule: check_product_cases [of e p])
  case (drop ev t np)
  from drop(1) have "mails ev = []"
    using mails_get_product_details [of e "url p"] by simp
  with assms drop show ?thesis
    by (auto simp: check_product_drop mails_append mails_notify_loop build_message_def
          split: if_splits)
next
  case (no_drop ev t np)
  with assms show ?thesis by (simp add: check_product_quiet)
qed

lemma mails_check_loop:
  assumes "(r, m) \<in> set (mails (fst (check_loop e ps st)))"
  shows "\<exists>p\<in>set ps. price_drop e p \<and> body_url m = url p"
  using assms
proof (induction ps arbitrary: st)
  case Nil
  then show ?case by simp
next
  case (Cons p ps)
  obtain ev st1 r1 where cp: "check_product e p st = (ev, st1, r1)"
    by (cases "check_product e p st") auto
  show ?case
  proof (cases r1)
    case (Inl x)
    with Cons.prems cp have "(r, m) \<in> set (mails (fst (check_product e p st)))" by simp
    then show ?thesis using mails_check_product by fastforce
  next
    case (Inr u)
    obtain ev' st2 r2 where cl: "check_loop e ps st1 = (ev', st2, r2)"
      by (cases "check_loop e ps st1") auto
    from Cons.prems cp Inr cl have "(r, m) \<in> set (mails ev) \<or> (r, m) \<in> set (mails ev')"
      by (simp add: mails_append)
    then show ?thesis
    proof
      assume "(r, m) \<in> set (mails ev)"
      with cp have "(r, m) \<in> set (mails (fst (check_product e p st)))" by simp
      then show ?thesis using mails_check_product by fastforce
    next
      assume "(r, m) \<in> set (mails ev')"
      with cl have "(r, m) \<in> set (mails (fst (check_loop e ps st1)))" by simp
      then show ?thesis using Cons.IH by auto
    qed
  qed
qed

lemma mails_about_check_loop:
  assumes "\<forall>p\<in>set ps. url p = u \<longrightarrow> \<not> price_drop e p"
  shows "mails_about u (fst (check_loop e ps st)) = []"
proof -
  have "\<forall>x\<in>set (mails (fst (check_loop e ps st))). \<not> (case x of (r, m) \<Rightarrow> body_url m = u)"
  proof
    fix x assume x: "x \<in> set (mails (fst (check_loop e ps st)))"
    obtain r m where rm: "x = (r, m)" by (cases x)
    from mails_check_loop [of r m e ps st] x rm assms
    show "\<not> (case x of (r, m) \<Rightarrow> body_url m = u)" by auto
  qed
  then show ?thesis by (simp add: mails_about_def filter_empty_conv)
qed

lemma check_product_frame:
  "subscriptions (fst (snd (check_product e p st))) = subscriptions st
   \<and> (\<exists>f. products (fst (snd (check_product e p st))) = map f (products st)
          \<and> keeps_row f \<and> (\<forall>q. p_id q = p_id p \<longrightarrow> \<not> price_drop e p \<longrightarrow> f q = q)
          \<and> (\<forall>q. p_id q \<noteq> p_id p \<longrightarrow> f q = q))"
proof -
  from check_product_store [of e p st] show ?thesis
  proof
    assume a: "fst (snd (check_product e p st)) = st"
    have "\<exists>f. products st = map f (products st) \<and> keeps_row f
            \<and> (\<forall>q. p_id q = p_id p \<longrightarrow> \<not> price_drop e p \<longrightarrow> f q = q)
            \<and> (\<forall>q. p_id q \<noteq> p_id p \<longrightarrow> f q = q)"
      by (rule exI [of _ "\<lambda>q. q"]) (simp add: keeps_row_def)
    with a show ?thesis by simp
  next
    assume "price_drop e p
      \<and> fst (snd (check_product e p st)) = update_price (p_id p) (observed_price e p) st"
    then have d: "price_drop e p"
      and a: "fst (snd (check_product e p st)) = update_price (p_id p) (observed_price e p) st"
      by simp_all
    from d have np: "0 < observed_price e p" by (simp add: price_drop_def)
    have "\<exists>f. products (update_price (p_id p) (observed_price e p) st) = map f (products st)
            \<and> keeps_row f
            \<and> (\<forall>q. p_id q = p_id p \<longrightarrow> \<not> price_drop e p \<longrightarrow> f q = q)
            \<and> (\<forall>q. p_id q \<noteq> p_id p \<longrightarrow> f q = q)"
      by (rule exI [of _ "\<lambda>q. if p_id q = p_id p then q\<lparr>price := observed_price e p\<rparr> else q"])
         (simp add: keeps_row_def update_price_def np d)
    moreover have "subscriptions (update_price (p_id p) (observed_price e p) st)
                   = subscriptions st"
      by (simp add: update_price_def)
    ultimately show ?thesis using a by simp
  qed
qed

lemma keeps_row_comp: "keeps_row f \<Longrightarrow> keeps_row g \<Longrightarrow> keeps_row (\<lambda>q. g (f q))"
  unfolding keeps_row_def
proof (intro allI)
  fix q
  assume f: "\<forall>q. p_id (f q) = p_id q \<and> url (f q) = url q \<and> title (f q) = title q
                     \<and> (price (f q) = price q \<or> 0 < price (f q))"
    and g: "\<forall>q. p_id (g q) = p_id q \<and> url (g q) = url q \<and> title (g q) = title q
                     \<and> (price (g q) = price q \<or> 0 < price (g q))"
  from f have fq: "p_id (f q) = p_id q" "url (f q) = url q" "title (f q) = title q"
    "price (f q) = price q \<or> 0 < price (f q)" by simp_all
  from g have gq: "p_id (g (f q)) = p_id (f q)" "url (g (f q)) = url (f q)"
    "title (g (f q)) = title (f q)"
    "price (g (f q)) = price (f q) \<or> 0 < price (g (f q))" by simp_all
  from fq gq show "p_id (g (f q)) = p_id q \<and> url (g (f q)) = url q \<and> title (g (f q)) = title q
                     \<and> (price (g (f q)) = price q \<or> 0 < price (g (f q)))"
    by auto
qed

lemma keeps_row_id: "keeps_row f \<Longrightarrow> p_id (f q) = p_id q"
  by (simp add: keeps_row_def)

lemma check_loop_frame:
  "subscriptions (fst (snd (check_loop e ps st))) = subscriptions st
   \<and> (\<exists>f. products (fst (snd (check_loop e ps st))) = map f (products st)
          \<and> keeps_row f
          \<and> (\<forall>q. (\<forall>p\<in>set ps. p_id p = p_id q \<longrightarrow> \<not> price_drop e p) \<longrightarrow> f q = q))"
proof (induction ps arbitrary: st)
  case Nil
  have "\<exists>f. products st = map f (products st) \<and> keeps_row f \<and> (\<forall>q. f q = q)"
    by (rule exI [of _ "\<lambda>q. q"]) (simp add: keeps_row_def)
  then show ?case by simp
next
  case (Cons p ps)
  obtain ev st1 r1 where cp: "check_product e p st = (ev, st1, r1)"
    by (cases "check_product e p st") auto
  from check_product_frame [of e p st] cp obtain f where
    s1: "subscriptions st1 = subscriptions st" and f: "products st1 = map f (products st)"
    "keeps_row f" "\<forall>q. p_id q = p_id p \<longrightarrow> \<not> price_drop e p \<longrightarrow> f q = q"
    "\<forall>q. p_id q \<noteq> p_id p \<longrightarrow> f q = q" by auto
  have fq: "f q = q" if "\<forall>p'\<in>set (p # ps). p_id p' = p_id q \<longrightarrow> \<not> price_drop e p'" for q
    using that f(3,4) by (cases "p_id q = p_id p") auto
  show ?case
  proof (cases r1)
    case (Inl x)
    with cp have st1: "fst (snd (check_loop e (p # ps) st)) = st1" by simp
    have "\<exists>f. products st1 = map f (products st) \<and> keeps_row f
            \<and> (\<forall>q. (\<forall>p'\<in>set (p # ps). p_id p' = p_id q \<longrightarrow> \<not> price_drop e p') \<longrightarrow> f q = q)"
      by (rule exI [of _ f]) (use f(1,2) fq in blast)
    with st1 s1 show ?thesis by simp
  next
    case (Inr u)
    obtain ev' st2 r2 where cl: "check_loop e ps st1 = (ev', st2, r2)"
      by (cases "check_loop e ps st1") auto
    from Cons.IH [of st1] cl obtain g where
      s2: "subscriptions st2 = subscriptions st1" and g: "products st2 = map g (products st1)"
      "keeps_row g"
      "\<forall>q. (\<forall>p'\<in>set ps. p_id p' = p_id q \<longrightarrow> \<not> price_drop e p') \<longrightarrow> g q = q" by auto
    from cp Inr cl have st2: "fst (snd (check_loop e (p # ps) st)) = st2" by simp
    have gf: "g (f q) = q"
      if "\<forall>p'\<in>set (p # ps). p_id p' = p_id q \<longrightarrow> \<not> price_drop e p'" for q
      using that fq [of q] g(3) by simp
    have "products st2 = map (\<lambda>q. g (f q)) (products st)" using f(1) g(1) by simp
    then have "\<exists>h. products st2 = map h (products st) \<and> keeps_row h
            \<and> (\<forall>q. (\<forall>p'\<in>set (p # ps). p_id p' = p_id q \<longrightarrow> \<not> price_drop e p') \<longrightarrow> h q = q)"
      using keeps_row_comp [OF f(2) g(2)] gf by (intro exI [of _ "\<lambda>q. g (f q)"]) blast
    with st2 s1 s2 show ?thesis by simp
  qed
qed


lemma check_prices_store:
  "fst (snd (check_prices e st)) = fst (snd (check_loop e (products st) st))"
  by (cases "products st = []")
     (auto simp: check_prices_def split: prod.splits sum.splits)

lemma check_prices_mails:
  "mails (fst (check_prices e st)) = mails (fst (check_loop e (products st) st))"
  by (cases "products st = []")
     (auto simp: check_prices_def mails_append split: prod.splits sum.splits)



lemma same_id_same_row:
  assumes "distinct (map p_id ps)" and "p \<in> set ps" and "q \<in> set ps" and "p_id q = p_id p"
  shows "q = p"
  using assms by (meson distinct_map inj_on_def)

lemma same_url_same_row:
  assumes "distinct (map url ps)" and "p \<in> set ps" and "q \<in> set ps" and "url q = url p"
  shows "q = p"
  using assms by (meson distinct_map inj_on_def)



lemma get_product_details_cong:
  assumes "requests_get e' = requests_get e" and "float_of e' = float_of e"
  shows "get_product_details e' u = get_product_details e u"
proof -
  have "price_try e' = price_try e"
    by (rule ext) (unfold price_try_def assms(2), rule refl)
  then show ?thesis
    unfolding get_product_details_def assms(1) by (rule arg_cong)
qed

lemma check_product_ignores_mail:
  assumes "requests_get e' = requests_get e" and "float_of e' = float_of e"
    and "commit_ok e' = commit_ok e"
  shows "snd (check_product e' p st) = snd (check_product e p st)"
proof (cases rule: check_product_cases [of e p])
  case (drop ev t np)
  from drop(1) have "get_product_details e' (url p) = (ev, Inr (t, np))"
    using get_product_details_cong [OF assms(1,2)] by simp
  with drop assms(3) show ?thesis by (simp add: check_product_drop)
next
  case (no_drop ev t np)
  from no_drop(1) have "get_product_details e' (url p) = (ev, Inr (t, np))"
    using get_product_details_cong [OF assms(1,2)] by simp
  with no_drop show ?thesis by (simp add: check_product_no_drop)
qed

lemma check_loop_ignores_mail:
  assumes "requests_get e' = requests_get e" and "float_of e' = float_of e"
    and "commit_ok e' = commit_ok e"
  shows "snd (check_loop e' ps st) = snd (check_loop e ps st)"
proof (induction ps arbitrary: st)
  case Nil
  show ?case by simp
next
  case (Cons p ps)
  obtain ev st1 r1 where a: "check_product e p st = (ev, st1, r1)"
    by (cases "check_product e p st") auto
  with check_product_ignores_mail [OF assms, of p st]
  obtain ev' where b: "check_product e' p st = (ev', st1, r1)"
    by (cases "check_product e' p st") auto
  show ?case
  proof (cases r1)
    case (Inl x)
    with a b show ?thesis by simp
  next
    case (Inr u)
    obtain ev2 st2 r2 where c: "check_loop e ps st1 = (ev2, st2, r2)"
      by (cases "check_loop e ps st1") auto
    with Cons.IH [of st1] obtain ev2' where d: "check_loop e' ps st1 = (ev2', st2, r2)"
      by (cases "check_loop e' ps st1") auto
    from a b c d Inr show ?thesis by simp
  qed
qed

lemma check_prices_ignores_mail:
  assumes "requests_get e' = requests_get e" and "float_of e' = float_of e"
    and "commit_ok e' = commit_ok e"
  shows "snd (check_prices e' st) = snd (check_prices e st)"
  using check_loop_ignores_mail [OF assms, of "products st" st]
  by (auto simp: check_prices_def split: prod.splits sum.splits)


lemma example_sweep:
  "check_prices example_env example_store =
     ([Print_check_started,
       Print_checking ''Lamp'', Print_checking_url ''https://shop.example/lamp'',
       Print_price_drop ''Lamp'', Print_old_new 50 45,
       Print_attempting ''alice@example.org'',
       Sendmail ''deals@example.org'' ''alice@example.org'' (build_message lamp 45),
       Print_email_sent ''alice@example.org'',
       Print_attempting ''bob@example.org'', Print_email_error SMTPException,
       Db_commit_ok, Print_database_updated,
       Print_checking ''Desk'', Print_checking_url ''https://shop.example/desk'',
       Print_no_change,
       Print_checking ''Sold out'', Print_checking_url ''https://shop.example/soldout'',
       Print_no_change,
       Print_check_completed],
      example_store\<lparr>products := [lamp\<lparr>price := 45\<rparr>, desk, sold]\<rparr>, Inr ())"
  by (simp add: check_prices_def check_product_def example_store_def lamp_def desk_def
        sold_def example_details product_subscriptions_def send_notification_email_def
        truthy_def update_price_def)
     (simp add: example_env_def)


lemma example_store_keys:
  "distinct (map p_id (products example_store))"
  "distinct (map url (products example_store))"
  "lamp \<in> set (products example_store)"
  "desk \<in> set (products example_store)"
  "sold \<in> set (products example_store)"
  by (simp_all add: example_store_def lamp_def desk_def sold_def)



text \<open>
  C2: let the keys of the product table be distinct, and let \<open>product\<close> be a stored row
  for which the sweep's fetch and extract yield \<open>np\<close> with \<open>np \<le> 0\<close> (in particular
  the sentinel 0.0 of a failed extraction) or \<open>np \<ge> price product\<close>. Then, however
  the sweep ends, the row of that key is still \<open>product\<close> with its stored price, the
  subscriptions are unchanged, and no mail about the product was sent.
\<close>

theorem sweep_no_drop:
  assumes "distinct (map p_id (products st))" and "distinct (map url (products st))"
    and "product \<in> set (products st)"
    and "snd (get_product_details e (url product)) = Inr (t, np)"
    and "np \<le> 0 \<or> price product \<le> np"
    and "check_prices e st = (tr, st', r)"
  shows "product \<in> set (products st')
       \<and> (\<forall>q\<in>set (products st'). p_id q = p_id product \<longrightarrow> q = product)
       \<and> subscriptions st' = subscriptions st
       \<and> mails_about (url product) tr = []"
proof -
  from assms(4) have "observed_price e product = np" by (simp add: observed_price_def)
  with assms(5) have quiet: "\<not> price_drop e product" by (auto simp: price_drop_def)
  from assms(6) have st': "st' = fst (snd (check_loop e (products st) st))"
    using check_prices_store [of e st] by simp
  from check_loop_frame [of e "products st" st] st' obtain f where
    subs: "subscriptions st' = subscriptions st"
    and f: "products st' = map f (products st)" "keeps_row f"
      "\<forall>q. (\<forall>p\<in>set (products st). p_id p = p_id q \<longrightarrow> \<not> price_drop e p) \<longrightarrow> f q = q"
    by auto
  have "\<forall>p\<in>set (products st). p_id p = p_id product \<longrightarrow> \<not> price_drop e p"
    using same_id_same_row [OF assms(1) assms(3)] quiet by blast
  with f(3) have fp: "f product = product" by blast
  with f(1) assms(3) have a: "product \<in> set (products st')" by (metis image_eqI set_map)
  have b: "\<forall>q\<in>set (products st'). p_id q = p_id product \<longrightarrow> q = product"
  proof (intro ballI impI)
    fix q assume q: "q \<in> set (products st')" and i: "p_id q = p_id product"
    from q f(1) obtain q0 where q0: "q0 \<in> set (products st)" "q = f q0" by auto
    with i keeps_row_id [OF f(2), of q0] have "p_id q0 = p_id product" by simp
    with same_id_same_row [OF assms(1) assms(3) q0(1)] have "q0 = product" by simp
    with q0(2) fp show "q = product" by simp
  qed
  have "\<forall>p\<in>set (products st). url p = url product \<longrightarrow> \<not> price_drop e p"
    using same_url_same_row [OF assms(2) assms(3)] quiet by blast
  then have "mails_about (url product) (fst (check_loop e (products st) st)) = []"
    by (rule mails_about_check_loop)
  with assms(6) have c: "mails_about (url product) tr = []"
    using check_prices_mails [of e st] by (simp add: mails_about_def)
  from a b subs c show ?thesis by simp
qed

theorem sweep_no_drop_witness:
  "snd (get_product_details example_env (url desk)) = Inr (''Desk'', 1234.56)
   \<and> price desk \<le> 1234.56
   \<and> snd (get_product_details example_env (url sold)) = Inr (''Sold out'', 0)
   \<and> desk \<in> set (products (fst (snd (check_prices example_env example_store))))
   \<and> sold \<in> set (products (fst (snd (check_prices example_env example_store))))
   \<and> subscriptions (fst (snd (check_prices example_env example_store)))
       = subscriptions example_store
   \<and> mails_about (url desk) (fst (check_prices example_env example_store)) = []
   \<and> mails_about (url sold) (fst (check_prices example_env example_store)) = []"
proof -
  have d4: "snd (get_product_details example_env (url desk)) = Inr (''Desk'', 1234.56)"
    by (simp add: desk_def example_details)
  have d5: "1234.56 \<le> (0::real) \<or> price desk \<le> 1234.56" by (simp add: desk_def)
  have s4: "snd (get_product_details example_env (url sold)) = Inr (''Sold out'', 0)"
    by (simp add: sold_def example_details)
  have s5: "(0::real) \<le> 0 \<or> price sold \<le> 0" by simp
  have h6: "check_prices example_env example_store
              = (fst (check_prices example_env example_store),
                 fst (snd (check_prices example_env example_store)),
                 snd (snd (check_prices example_env example_store)))"
    by simp
  note D = sweep_no_drop [OF example_store_keys(1) example_store_keys(2)
      example_store_keys(4) d4 d5 h6]
  note S = sweep_no_drop [OF example_store_keys(1) example_store_keys(2)
      example_store_keys(5) s4 s5 h6]
  have "price desk \<le> 1234.56" by (simp add: desk_def)
  with D S d4 s4 show ?thesis by blast
qed

text \<open>
  C8: the notifier never raises: it always returns (\<open>Inr\<close>). When a credential is
  absent (or empty) it only prints the warning and does not contact the relay; when the
  relay raises \<open>x\<close> it prints the error and returns. So the inner loop of the sweep calls
  it for every subscriber in turn whatever happened to the earlier ones, and what the
  sweep persists and how it ends do not depend on the credentials or on the relay.
\<close>

theorem notifier_never_raises:
  "snd (send_notification_email e r p v) = Inr ()
   \<and> (\<not> (truthy (SENDER_EMAIL e) \<and> truthy (SENDER_PASSWORD e))
        \<longrightarrow> fst (send_notification_email e r p v) = [Print_credentials_not_set])
   \<and> (truthy (SENDER_EMAIL e) \<and> truthy (SENDER_PASSWORD e)
        \<and> smtp e (the (SENDER_EMAIL e)) (the (SENDER_PASSWORD e)) r (build_message p v) = Some x
        \<longrightarrow> fst (send_notification_email e r p v) = [Print_attempting r, Print_email_error x])
   \<and> notify_loop e subs p v
        = (concat (map (\<lambda>sub. fst (send_notification_email e (user_email sub) p v)) subs),
           Inr ())
   \<and> snd (check_prices (e\<lparr>SENDER_EMAIL := a, SENDER_PASSWORD := b, smtp := f\<rparr>) st)
        = snd (check_prices e st)"
proof -
  have "snd (check_prices (e\<lparr>SENDER_EMAIL := a, SENDER_PASSWORD := b, smtp := f\<rparr>) st)
        = snd (check_prices e st)"
    by (rule check_prices_ignores_mail) simp_all
  then show ?thesis
    by (simp add: notify_loop_eq send_notification_email_returns)
       (simp add: send_notification_email_def Let_def)
qed

theorem notifier_never_raises_witness:
  "snd (send_notification_email example_env ''bob@example.org'' lamp 45) = Inr ()
   \<and> fst (send_notification_email example_env ''bob@example.org'' lamp 45)
       = [Print_attempting ''bob@example.org'', Print_email_error SMTPException]
   \<and> fst (send_notification_email (example_env\<lparr>SENDER_PASSWORD := None\<rparr>)
            ''bob@example.org'' lamp 45)
       = [Print_credentials_not_set]
   \<and> snd (check_prices
            (example_env\<lparr>SENDER_EMAIL := None, SENDER_PASSWORD := None,
                         smtp := (\<lambda>_ _ _ _. Some OSError)\<rparr>) example_store)
       = (example_store\<lparr>products := [lamp\<lparr>price := 45\<rparr>, desk, sold]\<rparr>, Inr ())"
proof -
  note A = notifier_never_raises [where e = example_env and r = "''bob@example.org''"
      and p = lamp and v = 45 and x = SMTPException and subs = "[]" and a = None
      and b = None and f = "\<lambda>_ _ _ _. Some OSError" and st = example_store]
  note B = notifier_never_raises [where e = "example_env\<lparr>SENDER_PASSWORD := None\<rparr>"
      and r = "''bob@example.org''" and p = lamp and v = 45 and x = SMTPException
      and subs = "[]" and a = None and b = None and f = "\<lambda>_ _ _ _. Some OSError"
      and st = example_store]
  have refused: "truthy (SENDER_EMAIL example_env) \<and> truthy (SENDER_PASSWORD example_env)
     \<and> smtp example_env (the (SENDER_EMAIL example_env)) (the (SENDER_PASSWORD example_env))
         ''bob@example.org'' (build_message lamp 45) = Some SMTPException"
    by (simp add: example_env_def truthy_def)
  have absent: "\<not> (truthy (SENDER_EMAIL (example_env\<lparr>SENDER_PASSWORD := None\<rparr>))
                  \<and> truthy (SENDER_PASSWORD (example_env\<lparr>SENDER_PASSWORD := None\<rparr>)))"
    by (simp add: truthy_def)
  from A have a: "snd (send_notification_email example_env ''bob@example.org'' lamp 45)
                    = Inr ()" by blast
  from A refused have b: "fst (send_notification_email example_env ''bob@example.org'' lamp 45)
       = [Print_attempting ''bob@example.org'', Print_email_error SMTPException]" by blast
  from B absent have c: "fst (send_notification_email (example_env\<lparr>SENDER_PASSWORD := None\<rparr>)
            ''bob@example.org'' lamp 45) = [Print_credentials_not_set]" by blast
  from A have "snd (check_prices
            (example_env\<lparr>SENDER_EMAIL := None, SENDER_PASSWORD := None,
                         smtp := (\<lambda>_ _ _ _. Some OSError)\<rparr>) example_store)
       = snd (check_prices example_env example_store)" by blast
  then have d: "snd (check_prices
            (example_env\<lparr>SENDER_EMAIL := None, SENDER_PASSWORD := None,
                         smtp := (\<lambda>_ _ _ _. Some OSError)\<rparr>) example_store)
       = (example_store\<lparr>products := [lamp\<lparr>price := 45\<rparr>, desk, sold]\<rparr>, Inr ())"
    by (simp add: example_sweep)
  from a b c d show ?thesis by blast
qed

subsection \<open>The endpoint\<close>

lemma fold_max_ge: "a \<le> fold max ids (a::nat)"
  by (induction ids arbitrary: a) (auto intro: order_trans [OF max.cobounded2])

lemma fold_max_member: "x \<in> set ids \<Longrightarrow> x \<le> fold max ids (a::nat)"
proof (induction ids arbitrary: a)
  case Nil
  then show ?case by simp
next
  case (Cons i ids)
  show ?case
  proof (cases "x = i")
    case True
    have "i \<le> max i a" by simp
    also have "\<dots> \<le> fold max ids (max i a)" by (rule fold_max_ge)
    finally show ?thesis using True by simp
  next
    case False
    with Cons show ?thesis by simp
  qed
qed

lemma fresh_id_new: "fresh_id ids \<notin> set ids"
  using fold_max_member [of "fresh_id ids" ids 0] by (auto simp: fresh_id_def)

lemma fresh_not_referenced:
  assumes "\<forall>s\<in>set subs. product_id s \<in> set ids"
  shows "\<forall>s\<in>set subs. product_id s \<noteq> fresh_id ids"
  using assms by (metis fresh_id_new)

lemma find_or_create_found:
  assumes "find (\<lambda>p. url p = u) (products st) = Some p"
  shows "find_or_create e st u = ([], Inr (st, p))"
  using assms by (simp add: find_or_create_def)

lemma find_or_create_rejected:
  assumes "find (\<lambda>p. url p = u) (products st) = None"
    and "get_product_details e u = (ev, Inr (t, v))" and "t = ''N/A'' \<or> v = 0"
  shows "find_or_create e st u = (Print_new_product u # ev, Inl (Inr (400, Failed_to_retrieve)))"
  using assms by (auto simp add: find_or_create_def)

lemma find_or_create_created:
  assumes "find (\<lambda>p. url p = u) (products st) = None"
    and "get_product_details e u = (ev, Inr (t, v))" and "t \<noteq> ''N/A''" and "v \<noteq> 0"
  shows "find_or_create e st u =
           (Print_new_product u # ev,
            Inr (st\<lparr>products := products st
                      @ [\<lparr>p_id = fresh_id (map p_id (products st)), url = u, title = t,
                          price = v\<rparr>]\<rparr>,
                 \<lparr>p_id = fresh_id (map p_id (products st)), url = u, title = t, price = v\<rparr>))"
  using assms by (simp add: find_or_create_def Let_def)

lemma track_product_body:
  assumes "map_of d ''product_url'' = Some u" and "map_of d ''user_email'' = Some em"
  shows "track_product e st (Some d) =
     (case find_or_create e st u of
        (ev, Inl r) \<Rightarrow> (ev, st, r)
      | (ev, Inr (pending, product)) \<Rightarrow>
          (case find (\<lambda>s. user_email s = em \<and> product_id s = p_id product)
                  (subscriptions pending) of
             Some subscription \<Rightarrow> (ev, st, Inr (200, Already_tracking))
           | None \<Rightarrow>
               if commit_ok e (pending\<lparr>subscriptions := subscriptions pending
                     @ [\<lparr>s_id = fresh_id (map s_id (subscriptions pending)),
                         user_email = em, product_id = p_id product\<rparr>]\<rparr>)
               then (ev @ [Db_commit_ok],
                     pending\<lparr>subscriptions := subscriptions pending
                       @ [\<lparr>s_id = fresh_id (map s_id (subscriptions pending)),
                           user_email = em, product_id = p_id product\<rparr>]\<rparr>,
                     Inr (201, Success (take 30 (title product))))
               else (ev @ [Db_commit_raised, Db_rollback, Print_database_error],
                     st, Inr (500, Error_creating))))"
proof -
  from assms(1) obtain x xs where d: "d = x # xs" by (cases d) auto
  show ?thesis
    unfolding track_product_def Let_def d
    using assms [unfolded d] by simp
qed

lemma track_product_missing:
  assumes "data = None \<or> (\<exists>d. data = Some d
             \<and> (map_of d ''product_url'' = None \<or> map_of d ''user_email'' = None))"
  shows "track_product e st data = ([], st, Inr (400, Missing_fields))"
  using assms
  by (auto simp: track_product_def split: option.splits list.splits)

lemma track_product_inputs:
  obtains (missing) "track_product e st data = ([], st, Inr (400, Missing_fields))"
  | (fields) d u em where "data = Some d" "map_of d ''product_url'' = Some u"
      "map_of d ''user_email'' = Some em"
proof (cases data)
  case None
  then show ?thesis using missing track_product_missing by blast
next
  case (Some d)
  show ?thesis
  proof (cases "map_of d ''product_url''")
    case None
    with Some show ?thesis using missing track_product_missing by blast
  next
    case u: (Some u)
    show ?thesis
    proof (cases "map_of d ''user_email''")
      case None
      with Some show ?thesis using missing track_product_missing by blast
    next
      case (Some em)
      with u \<open>data = Some d\<close> show ?thesis using fields by blast
    qed
  qed
qed

lemma find_or_create_cases:
  obtains (found) p where "find (\<lambda>p. url p = u) (products st) = Some p"
      "find_or_create e st u = ([], Inr (st, p))"
  | (rejected) ev t v where "find (\<lambda>p. url p = u) (products st) = None"
      "get_product_details e u = (ev, Inr (t, v))" "t = ''N/A'' \<or> v = 0"
      "find_or_create e st u = (Print_new_product u # ev, Inl (Inr (400, Failed_to_retrieve)))"
  | (created) ev t v where "find (\<lambda>p. url p = u) (products st) = None"
      "get_product_details e u = (ev, Inr (t, v))" "t \<noteq> ''N/A''" "v \<noteq> 0"
      "find_or_create e st u =
           (Print_new_product u # ev,
            Inr (st\<lparr>products := products st
                      @ [\<lparr>p_id = fresh_id (map p_id (products st)), url = u, title = t,
                          price = v\<rparr>]\<rparr>,
                 \<lparr>p_id = fresh_id (map p_id (products st)), url = u, title = t, price = v\<rparr>))"
proof (cases "find (\<lambda>p. url p = u) (products st)")
  case (Some p)
  then show ?thesis using found find_or_create_found by blast
next
  case None
  obtain ev t v where g: "get_product_details e u = (ev, Inr (t, v))"
    using get_product_details_total [of e u] by blast
  show ?thesis
  proof (cases "t = ''N/A'' \<or> v = 0")
    case True
    with None g show ?thesis using rejected find_or_create_rejected by blast
  next
    case False
    with None g show ?thesis using created [of ev t v] find_or_create_created by blast
  qed
qed


lemma find_in_set: "find P xs = Some x \<Longrightarrow> x \<in> set xs \<and> P x"
  by (induction xs) (auto split: if_splits)




lemma failing_db_details:
  "get_product_details failing_db_env u = get_product_details example_env u"
  by (rule get_product_details_cong) (simp_all add: failing_db_env_def)

lemma track_product_products:
  "products (fst (snd (track_product e st data))) = products st
   \<or> (\<exists>P. title P \<noteq> ''N/A'' \<and> price P \<noteq> 0
          \<and> products (fst (snd (track_product e st data))) = products st @ [P])"
proof (cases rule: track_product_inputs [of e st data])
  case missing
  then show ?thesis by simp
next
  case (fields d u em)
  show ?thesis
  proof (cases rule: find_or_create_cases [of u st e])
    case (found p)
    with fields show ?thesis
      by (simp add: track_product_body split: option.splits)
  next
    case (rejected ev t v)
    with fields show ?thesis by (simp add: track_product_body)
  next
    case (created ev t v)
    let ?P = "\<lparr>p_id = fresh_id (map p_id (products st)), url = u, title = t, price = v\<rparr>"
    from created(3,4) have "title ?P \<noteq> ''N/A'' \<and> price ?P \<noteq> 0" by simp
    moreover from fields created(5)
    have "products (fst (snd (track_product e st data))) = products st
          \<or> products (fst (snd (track_product e st data))) = products st @ [?P]"
      by (simp add: track_product_body split: option.splits)
    ultimately show ?thesis by blast
  qed
qed

lemma check_prices_products:
  assumes "p \<in> set (products (fst (snd (check_prices e st))))"
  shows "p \<in> set (products st) \<or> 0 < price p"
proof -
  from check_loop_frame [of e "products st" st] check_prices_store [of e st] obtain f where
    f: "products (fst (snd (check_prices e st))) = map f (products st)" "keeps_row f"
    by auto
  from assms f(1) obtain q where q: "q \<in> set (products st)" "p = f q" by auto
  from f(2) have k: "p_id (f q) = p_id q" "url (f q) = url q" "title (f q) = title q"
    "price (f q) = price q \<or> 0 < price (f q)" by (simp_all add: keeps_row_def)
  show ?thesis
  proof (cases "price (f q) = price q")
    case True
    with k(1-3) have "f q = q" by simp
    with q show ?thesis by simp
  next
    case False
    with k(4) q(2) show ?thesis by simp
  qed
qed

lemma example_track:
  "track_product example_env example_store
     (track_request ''https://shop.example/refund'' ''carol@example.org'') =
     ([Print_new_product ''https://shop.example/refund'',
       Print_checking_url ''https://shop.example/refund'', Db_commit_ok],
      \<lparr>products = [lamp, desk, sold,
                   \<lparr>p_id = 4, url = ''https://shop.example/refund'', title = ''Refund'',
                    price = - 5.99\<rparr>],
       subscriptions = subscriptions example_store
         @ [\<lparr>s_id = 5, user_email = ''carol@example.org'', product_id = 4\<rparr>]\<rparr>,
      Inr (201, Success ''Refund''))"
  "track_product example_env example_store
     (track_request ''https://shop.example/chair'' ''carol@example.org'') =
     ([Print_new_product ''https://shop.example/chair'',
       Print_checking_url ''https://shop.example/chair'', Db_commit_ok],
      \<lparr>products = [lamp, desk, sold,
                   \<lparr>p_id = 4, url = ''https://shop.example/chair'', title = ''Chair'',
                    price = 89.9\<rparr>],
       subscriptions = subscriptions example_store
         @ [\<lparr>s_id = 5, user_email = ''carol@example.org'', product_id = 4\<rparr>]\<rparr>,
      Inr (201, Success ''Chair''))"
  "track_product example_env example_store
     (track_request ''https://shop.example/desk'' ''carol@example.org'') =
     ([Db_commit_ok],
      example_store\<lparr>subscriptions := subscriptions example_store
         @ [\<lparr>s_id = 5, user_email = ''carol@example.org'', product_id = 2\<rparr>]\<rparr>,
      Inr (201, Success ''Desk''))"
  "track_product example_env example_store
     (track_request ''https://shop.example/untitled'' ''carol@example.org'') =
     ([Print_new_product ''https://shop.example/untitled'',
       Print_checking_url ''https://shop.example/untitled''],
      example_store, Inr (400, Failed_to_retrieve))"
  "track_product failing_db_env example_store
     (track_request ''https://shop.example/chair'' ''carol@example.org'') =
     ([Print_new_product ''https://shop.example/chair'',
       Print_checking_url ''https://shop.example/chair'',
       Db_commit_raised, Db_rollback, Print_database_error],
      example_store, Inr (500, Error_creating))"
  by (simp_all add: track_product_def track_request_def find_or_create_def example_store_def
        lamp_def desk_def sold_def failing_db_details example_details fresh_id_def Let_def)
     (simp_all add: example_env_def failing_db_env_def)



lemma well_formed_check_prices:
  assumes "well_formed st"
  shows "well_formed (fst (snd (check_prices e st)))"
proof -
  from check_loop_frame [of e "products st" st] check_prices_store [of e st] obtain f where
    s: "subscriptions (fst (snd (check_prices e st))) = subscriptions st"
    and f: "products (fst (snd (check_prices e st))) = map f (products st)" "keeps_row f"
    by auto
  from f(2) have a: "map p_id (map f (products st)) = map p_id (products st)"
    and b: "map url (map f (products st)) = map url (products st)"
    by (simp_all add: keeps_row_def)
  show ?thesis
    unfolding well_formed_def s f(1) a b by (rule assms [unfolded well_formed_def])
qed

lemma well_formed_track_product:
  assumes "well_formed st"
  shows "well_formed (fst (snd (track_product e st data)))"
proof (cases rule: track_product_inputs [of e st data])
  case missing
  with assms show ?thesis by simp
next
  case (fields d u em)
  let ?Q = "\<lambda>P s. user_email s = em \<and> product_id s = p_id P"
  from assms have did: "distinct (map p_id (products st))"
    and durl: "distinct (map url (products st))"
    and dkey: "distinct (map (\<lambda>s. (user_email s, product_id s)) (subscriptions st))"
    and fk: "\<forall>s\<in>set (subscriptions st). product_id s \<in> set (map p_id (products st))"
    by (simp_all add: well_formed_def)
  show ?thesis
  proof (cases rule: find_or_create_cases [of u st e])
    case (found P)
    from find_in_set [OF found(1)] have Pin: "P \<in> set (products st)" by simp
    show ?thesis
    proof (cases "find (?Q P) (subscriptions st)")
      case (Some s)
      with fields found assms show ?thesis by (simp add: track_product_body)
    next
      case None
      then have new: "(em, p_id P) \<notin> set (map (\<lambda>s. (user_email s, product_id s))
                                            (subscriptions st))"
        by (auto simp: find_None_iff)
      have "well_formed (st\<lparr>subscriptions := subscriptions st
              @ [\<lparr>s_id = fresh_id (map s_id (subscriptions st)), user_email = em,
                  product_id = p_id P\<rparr>]\<rparr>)"
        using did durl dkey fk new Pin by (simp add: well_formed_def)
      with fields found None assms show ?thesis by (simp add: track_product_body)
    qed
  next
    case (rejected ev t v)
    with fields assms show ?thesis by (simp add: track_product_body)
  next
    case (created ev t v)
    let ?P = "\<lparr>p_id = fresh_id (map p_id (products st)), url = u, title = t, price = v\<rparr>"
    have fresh: "fresh_id (map p_id (products st)) \<notin> set (map p_id (products st))"
      by (rule fresh_id_new)
    note unref = fresh_not_referenced [OF fk]
    then have nokey: "(em, fresh_id (map p_id (products st)))
        \<notin> set (map (\<lambda>s. (user_email s, product_id s)) (subscriptions st))"
      by auto
    from unref have None: "find (?Q ?P) (subscriptions st) = None"
      by (simp add: find_None_iff)
    from created(1) have nou: "u \<notin> set (map url (products st))"
      by (auto simp: find_None_iff)
    have "well_formed (st\<lparr>products := products st @ [?P],
              subscriptions := subscriptions st
                @ [\<lparr>s_id = fresh_id (map s_id (subscriptions st)), user_email = em,
                    product_id = p_id ?P\<rparr>]\<rparr>)"
      using did durl dkey fk fresh nokey nou by (simp add: well_formed_def)
    with fields created(5) None assms show ?thesis by (simp add: track_product_body)
  qed
qed

text \<open>
  C3: for a track request with both fields whose URL has no stored product, when the
  fetch and extract made at once return a sentinel (the title \<^verbatim>\<open>N/A\<close> or the price 0.0),
  the endpoint answers 400 and the committed content is what it was: no product row and
  no subscription row is created, and no commit is attempted (the run holds only the
  prints).
\<close>

theorem track_extraction_failure:
  assumes "map_of d ''product_url'' = Some u" and "map_of d ''user_email'' = Some em"
    and "\<forall>p\<in>set (products st). url p \<noteq> u"
    and "get_product_details e u = (ev, Inr (t, v))"
    and "t = ''N/A'' \<or> v = 0"
  shows "track_product e st (Some d) = (Print_new_product u # ev, st, Inr (400, Failed_to_retrieve))"
proof -
  from assms(3) have "find (\<lambda>p. url p = u) (products st) = None"
    by (simp add: find_None_iff)
  from find_or_create_rejected [OF this assms(4,5)]
  have f: "find_or_create e st u
             = (Print_new_product u # ev, Inl (Inr (400, Failed_to_retrieve)))" .
  from assms(1) obtain x xs where "d = x # xs" by (cases d) auto
  with assms(1,2) f show ?thesis by (simp add: track_product_def)
qed

theorem track_extraction_failure_witness:
  "get_product_details example_env ''https://shop.example/untitled''
     = ([Print_checking_url ''https://shop.example/untitled''], Inr (''N/A'', 19.99))
   \<and> track_product example_env example_store
        (Some [(''product_url'', ''https://shop.example/untitled''),
               (''user_email'', ''carol@example.org'')])
     = ([Print_new_product ''https://shop.example/untitled'',
         Print_checking_url ''https://shop.example/untitled''],
        example_store, Inr (400, Failed_to_retrieve))
   \<and> get_product_details example_env ''https://shop.example/gone''
     = ([Print_checking_url ''https://shop.example/gone'', Print_connection_error],
        Inr (''N/A'', 0))
   \<and> track_product example_env example_store
        (Some [(''product_url'', ''https://shop.example/gone''),
               (''user_email'', ''carol@example.org'')])
     = ([Print_new_product ''https://shop.example/gone'',
         Print_checking_url ''https://shop.example/gone'', Print_connection_error],
        example_store, Inr (400, Failed_to_retrieve))"
proof -
  have new: "\<forall>p\<in>set (products example_store). url p \<noteq> ''https://shop.example/untitled''"
    "\<forall>p\<in>set (products example_store). url p \<noteq> ''https://shop.example/gone''"
    by (simp_all add: example_store_def lamp_def desk_def sold_def)
  have a: "map_of [(''product_url'', ''https://shop.example/untitled''),
               (''user_email'', ''carol@example.org'')] ''product_url''
             = Some ''https://shop.example/untitled''"
    and b: "map_of [(''product_url'', ''https://shop.example/untitled''),
               (''user_email'', ''carol@example.org'')] ''user_email''
             = Some ''carol@example.org''"
    and c: "map_of [(''product_url'', ''https://shop.example/gone''),
               (''user_email'', ''carol@example.org'')] ''product_url''
             = Some ''https://shop.example/gone''"
    and d: "map_of [(''product_url'', ''https://shop.example/gone''),
               (''user_email'', ''carol@example.org'')] ''user_email''
             = Some ''carol@example.org''"
    by simp_all
  have t: "''N/A'' = ''N/A'' \<or> (19.99::real) = 0" and g: "''N/A'' = ''N/A'' \<or> (0::real) = 0"
    by simp_all
  note U = track_extraction_failure [OF a b new(1) example_details(5) t]
  note G = track_extraction_failure [OF c d new(2) example_details(8) g]
  from U G example_details(5) example_details(8) show ?thesis by simp
qed

text \<open>
  C7: let a track request carry both fields and reach the commit of line 192: lines
  170-181 give a product with the content \<open>pending\<close> of the session, and no subscription
  of that email for that product exists. If the commit of that content with the new
  subscription fails (\<open>commit_ok\<close> is false on it), the endpoint rolls the session back,
  prints the error and answers 500, and the committed content is \<open>st\<close>, what it was
  before the request: neither the subscription nor a product created on lines 179-181
  is stored.
\<close>

theorem track_commit_failure:
  assumes "map_of d ''product_url'' = Some u" and "map_of d ''user_email'' = Some em"
    and "find_or_create e st u = (ev0, Inr (pending, product))"
    and "find (\<lambda>s. user_email s = em \<and> product_id s = p_id product)
           (subscriptions pending) = None"
    and "\<not> commit_ok e
           (pending\<lparr>subscriptions := subscriptions pending
              @ [\<lparr>s_id = fresh_id (map s_id (subscriptions pending)),
                  user_email = em, product_id = p_id product\<rparr>]\<rparr>)"
  shows "track_product e st (Some d)
           = (ev0 @ [Db_commit_raised, Db_rollback, Print_database_error],
              st, Inr (500, Error_creating))"
  using assms(3,4,5) by (simp add: track_product_body [OF assms(1,2)])

theorem track_commit_failure_witness:
  "find_or_create failing_db_env example_store ''https://shop.example/desk''
     = ([], Inr (example_store, desk))
   \<and> \<not> commit_ok failing_db_env
        (example_store\<lparr>subscriptions := subscriptions example_store
           @ [\<lparr>s_id = fresh_id (map s_id (subscriptions example_store)),
               user_email = ''carol@example.org'', product_id = p_id desk\<rparr>]\<rparr>)
   \<and> track_product failing_db_env example_store
        (Some [(''product_url'', ''https://shop.example/desk''),
               (''user_email'', ''carol@example.org'')])
     = ([] @ [Db_commit_raised, Db_rollback, Print_database_error],
        example_store, Inr (500, Error_creating))
   \<and> find_or_create failing_db_env example_store ''https://shop.example/chair''
     = ([Print_new_product ''https://shop.example/chair'',
         Print_checking_url ''https://shop.example/chair''],
        Inr (example_store\<lparr>products := products example_store
               @ [\<lparr>p_id = 4, url = ''https://shop.example/chair'', title = ''Chair'',
                   price = 89.9\<rparr>]\<rparr>,
             \<lparr>p_id = 4, url = ''https://shop.example/chair'', title = ''Chair'',
              price = 89.9\<rparr>))
   \<and> track_product failing_db_env example_store
        (Some [(''product_url'', ''https://shop.example/chair''),
               (''user_email'', ''carol@example.org'')])
     = ([Print_new_product ''https://shop.example/chair'',
         Print_checking_url ''https://shop.example/chair'']
          @ [Db_commit_raised, Db_rollback, Print_database_error],
        example_store, Inr (500, Error_creating))"
proof -
  let ?d = "[(''product_url'', ''https://shop.example/desk''),
             (''user_email'', ''carol@example.org'')]"
  let ?c = "[(''product_url'', ''https://shop.example/chair''),
             (''user_email'', ''carol@example.org'')]"
  let ?chair = "\<lparr>p_id = 4, url = ''https://shop.example/chair'', title = ''Chair'',
                 price = 89.9\<rparr>"
  let ?pending = "example_store\<lparr>products := products example_store @ [?chair]\<rparr>"
  have d1: "map_of ?d ''product_url'' = Some ''https://shop.example/desk''"
    and d2: "map_of ?d ''user_email'' = Some ''carol@example.org''"
    and c1: "map_of ?c ''product_url'' = Some ''https://shop.example/chair''"
    and c2: "map_of ?c ''user_email'' = Some ''carol@example.org''"
    by simp_all
  have fd: "find_or_create failing_db_env example_store ''https://shop.example/desk''
              = ([], Inr (example_store, desk))"
    by (simp add: find_or_create_def example_store_def lamp_def desk_def sold_def)
  have fc: "find_or_create failing_db_env example_store ''https://shop.example/chair''
              = ([Print_new_product ''https://shop.example/chair'',
                  Print_checking_url ''https://shop.example/chair''],
                 Inr (?pending, ?chair))"
    by (simp add: find_or_create_def example_store_def lamp_def desk_def sold_def
          failing_db_details example_details fresh_id_def Let_def)
  have nd: "find (\<lambda>s. user_email s = ''carol@example.org'' \<and> product_id s = p_id desk)
              (subscriptions example_store) = None"
    by (simp add: example_store_def)
  have nc: "find (\<lambda>s. user_email s = ''carol@example.org'' \<and> product_id s = p_id ?chair)
              (subscriptions ?pending) = None"
    by (simp add: example_store_def)
  have rd: "\<not> commit_ok failing_db_env
        (example_store\<lparr>subscriptions := subscriptions example_store
           @ [\<lparr>s_id = fresh_id (map s_id (subscriptions example_store)),
               user_email = ''carol@example.org'', product_id = p_id desk\<rparr>]\<rparr>)"
    by (simp add: failing_db_env_def)
  have rc: "\<not> commit_ok failing_db_env
        (?pending\<lparr>subscriptions := subscriptions ?pending
           @ [\<lparr>s_id = fresh_id (map s_id (subscriptions ?pending)),
               user_email = ''carol@example.org'', product_id = p_id ?chair\<rparr>]\<rparr>)"
    by (simp add: failing_db_env_def)
  note D = track_commit_failure [OF d1 d2 fd nd rd]
  note C = track_commit_failure [OF c1 c2 fc nc rc]
  from fd rd D fc C show ?thesis by (intro conjI)
qed



text \<open>
  C9, as the claim words it: every product row ever persisted has a strictly positive
  price. It has not: the page of \<^verbatim>\<open>/refund\<close> shows the whole part \<^verbatim>\<open>-5\<close> and the
  fraction \<^verbatim>\<open>99\<close>, \<^verbatim>\<open>float("-5.99")\<close> is -5.99, which is not 0.0, and the endpoint
  persists the product at that price and answers 201.
\<close>

theorem negative_price_counterexample:
  "track_product example_env example_store
     (track_request ''https://shop.example/refund'' ''carol@example.org'') =
     ([Print_new_product ''https://shop.example/refund'',
       Print_checking_url ''https://shop.example/refund'', Db_commit_ok],
      \<lparr>products = [lamp, desk, sold,
                   \<lparr>p_id = 4, url = ''https://shop.example/refund'', title = ''Refund'',
                    price = - 5.99\<rparr>],
       subscriptions = subscriptions example_store
         @ [\<lparr>s_id = 5, user_email = ''carol@example.org'', product_id = 4\<rparr>]\<rparr>,
      Inr (201, Success ''Refund''))
   \<and> \<not> 0 < price \<lparr>p_id = 4, url = ''https://shop.example/refund'', title = ''Refund'',
                    price = - 5.99\<rparr>"
  by (simp add: example_track(1))

text \<open>
  C9, amended: every product row ever persisted has a non-zero price. If no stored price
  is 0, none is after a track request (line 176 rejects the price 0.0, and only that
  one) and none is after a sweep; and every row after a sweep is a row from before it or
  has a strictly positive price (line 127: the sweep only writes a positive price).
\<close>

theorem stored_prices_nonzero:
  assumes "\<forall>p\<in>set (products st). price p \<noteq> 0"
  shows "(\<forall>p\<in>set (products (fst (snd (track_product e st data)))). price p \<noteq> 0)
       \<and> (\<forall>p\<in>set (products (fst (snd (check_prices e st)))). price p \<noteq> 0)
       \<and> (\<forall>p\<in>set (products (fst (snd (check_prices e st)))).
             p \<in> set (products st) \<or> 0 < price p)"
proof -
  have a: "\<forall>p\<in>set (products (fst (snd (track_product e st data)))). price p \<noteq> 0"
    using track_product_products [of e st data] assms by auto
  have c: "\<forall>p\<in>set (products (fst (snd (check_prices e st)))).
             p \<in> set (products st) \<or> 0 < price p"
    using check_prices_products by blast
  have b: "\<forall>p\<in>set (products (fst (snd (check_prices e st)))). price p \<noteq> 0"
  proof
    fix p assume "p \<in> set (products (fst (snd (check_prices e st))))"
    with c have "p \<in> set (products st) \<or> 0 < price p" by blast
    with assms show "price p \<noteq> 0" by auto
  qed
  from a b c show ?thesis by blast
qed

theorem stored_prices_nonzero_witness:
  "price lamp \<noteq> 0 \<and> price desk \<noteq> 0 \<and> price sold \<noteq> 0
   \<and> products (fst (snd (track_product example_env example_store
          (track_request ''https://shop.example/refund'' ''carol@example.org''))))
       = [lamp, desk, sold,
          \<lparr>p_id = 4, url = ''https://shop.example/refund'', title = ''Refund'',
           price = - 5.99\<rparr>]
   \<and> price \<lparr>p_id = 4, url = ''https://shop.example/refund'', title = ''Refund'',
             price = - 5.99\<rparr> \<noteq> 0
   \<and> products (fst (snd (check_prices example_env example_store)))
       = [lamp\<lparr>price := 45\<rparr>, desk, sold]
   \<and> price (lamp\<lparr>price := 45\<rparr>) \<noteq> 0
   \<and> (lamp\<lparr>price := 45\<rparr> \<in> set (products example_store) \<or> 0 < price (lamp\<lparr>price := 45\<rparr>))"
proof -
  let ?refund = "\<lparr>p_id = 4, url = ''https://shop.example/refund'', title = ''Refund'',
                  price = - 5.99\<rparr>"
  have h: "\<forall>p\<in>set (products example_store). price p \<noteq> 0"
    by (simp add: example_store_def lamp_def desk_def sold_def)
  have old: "price lamp \<noteq> 0 \<and> price desk \<noteq> 0 \<and> price sold \<noteq> 0"
    by (simp add: lamp_def desk_def sold_def)
  have tracked: "products (fst (snd (track_product example_env example_store
          (track_request ''https://shop.example/refund'' ''carol@example.org''))))
       = [lamp, desk, sold, ?refund]"
    by (simp add: example_track(1))
  have swept: "products (fst (snd (check_prices example_env example_store)))
       = [lamp\<lparr>price := 45\<rparr>, desk, sold]"
    by (simp add: example_sweep)
  note T = stored_prices_nonzero [OF h, of example_env
      "track_request ''https://shop.example/refund'' ''carol@example.org''"]
  have m1: "?refund \<in> set (products (fst (snd (track_product example_env example_store
          (track_request ''https://shop.example/refund'' ''carol@example.org'')))))"
    unfolding tracked by simp
  have m2: "lamp\<lparr>price := 45\<rparr>
              \<in> set (products (fst (snd (check_prices example_env example_store))))"
    unfolding swept by simp
  from T m1 have a: "price ?refund \<noteq> 0" by blast
  from T m2 have b: "price (lamp\<lparr>price := 45\<rparr>) \<noteq> 0" by blast
  from T m2 have c: "lamp\<lparr>price := 45\<rparr> \<in> set (products example_store)
                     \<or> 0 < price (lamp\<lparr>price := 45\<rparr>)" by blast
  from old tracked swept a b c show ?thesis by blast
qed

end
